theory Spec2Isabelle
  imports Complex_Main "HOL-Library.AList" "HOL-Library.Product_Lexorder"
begin

section \<open>Python values, errors and containers\<close>

text \<open>
  The development embeds \<^verbatim>\<open>ITMO_FS/filters/multivariate/mimaga.py\<close>.
  Python floats are modelled as \<^typ>\<open>real\<close> (exact arithmetic, \<open>ln\<close> for
  \<^verbatim>\<open>np.log\<close>), Python integers as \<^typ>\<open>int\<close> or \<^typ>\<open>nat\<close>, and every
  exception the code can raise as a value \<open>Inl e\<close> of the result type.
\<close>

datatype error =
  AttributeError | IndexError | KeyError | TypeError | ValueError | ZeroDivisionError

definition and_then :: "error + 'a \<Rightarrow> ('a \<Rightarrow> error + 'b) \<Rightarrow> error + 'b" where
  "and_then m f = (case m of Inl e \<Rightarrow> Inl e | Inr v \<Rightarrow> f v)"

text \<open>A comprehension or \<^verbatim>\<open>map\<close> whose body may raise: the first error wins.\<close>

fun traverse :: "('a \<Rightarrow> error + 'b) \<Rightarrow> 'a list \<Rightarrow> error + 'b list" where
  "traverse f [] = Inr []"
| "traverse f (x # xs) =
     and_then (f x) (\<lambda>y. and_then (traverse f xs) (\<lambda>ys. Inr (y # ys)))"

text \<open>
  A Python \<^verbatim>\<open>dict\<close> is an association list in insertion order:
  \<^const>\<open>AList.update\<close> overwrites an existing key in place and appends a new one,
  as \<^verbatim>\<open>d[k] = v\<close> does; reading a missing key raises \<^verbatim>\<open>KeyError\<close>.
\<close>

type_synonym ('k, 'v) dict = "('k \<times> 'v) list"

definition dict_get :: "('k, 'v) dict \<Rightarrow> 'k \<Rightarrow> error + 'v" where
  "dict_get d k = (case map_of d k of None \<Rightarrow> Inl KeyError | Some v \<Rightarrow> Inr v)"

text \<open>\<^verbatim>\<open>{k: v for k in ks}\<close>\<close>

definition dict_const :: "'k list \<Rightarrow> 'v \<Rightarrow> ('k, 'v) dict" where
  "dict_const ks v = fold (\<lambda>k. AList.update k v) ks []"

text \<open>\<^verbatim>\<open>d[k] += 1\<close>\<close>

definition dict_incr :: "('k, nat) dict \<Rightarrow> 'k \<Rightarrow> error + ('k, nat) dict" where
  "dict_incr d k = and_then (dict_get d k) (\<lambda>c. Inr (AList.update k (c + 1) d))"

text \<open>\<^verbatim>\<open>a / b\<close> on Python numbers.\<close>

definition py_truediv :: "real \<Rightarrow> real \<Rightarrow> error + real" where
  "py_truediv a b = (if b = 0 then Inl ZeroDivisionError else Inr (a / b))"

section \<open>The \<^verbatim>\<open>MIMAGA\<close> instance\<close>

text \<open>
  An instance of \<^verbatim>\<open>MIMAGA\<close> is its attribute dictionary. \<^verbatim>\<open>__init__\<close> stores the eight
  constructor arguments under the names written in the source; reading an attribute that
  the dictionary does not hold raises \<^verbatim>\<open>AttributeError\<close>.
\<close>

datatype pyval = PInt int | PFloat real

type_synonym obj = "(string, pyval) dict"

definition init :: "int \<Rightarrow> int \<Rightarrow> int \<Rightarrow> real \<Rightarrow> real \<Rightarrow> real \<Rightarrow> real \<Rightarrow> real \<Rightarrow> obj" where
  "init mim_size pop_size max_iter f_target k1 k2 k3 k4 =
     [(''_mim_size'', PInt mim_size), (''_pop_size'', PInt pop_size),
      (''_max_iter'', PInt max_iter), (''_f_target'', PFloat f_target),
      (''_k1'', PFloat k1), (''_k2'', PFloat k2), (''_k3'', PFloat k3), (''_k4'', PFloat k4)]"

definition getattr :: "obj \<Rightarrow> string \<Rightarrow> error + pyval" where
  "getattr self name = (case map_of self name of None \<Rightarrow> Inl AttributeError | Some v \<Rightarrow> Inr v)"

text \<open>An attribute used where an integer is required (a slice bound, a shift count, \<^verbatim>\<open>range\<close>).\<close>

definition getattr_int :: "obj \<Rightarrow> string \<Rightarrow> error + int" where
  "getattr_int self name =
     and_then (getattr self name) (\<lambda>v. case v of PInt n \<Rightarrow> Inr n | PFloat _ \<Rightarrow> Inl TypeError)"

text \<open>An attribute used in float arithmetic or a comparison.\<close>

definition getattr_num :: "obj \<Rightarrow> string \<Rightarrow> error + real" where
  "getattr_num self name =
     and_then (getattr self name) (\<lambda>v. case v of PInt n \<Rightarrow> Inr (real_of_int n) | PFloat r \<Rightarrow> Inr r)"

section \<open>EntropyMath\<close>

text \<open>
  \<^verbatim>\<open>nonzero_probs = probs[np.where(probs > 0)]\<close>
  \<^verbatim>\<open>entropy = -sum(nonzero_probs * np.log(nonzero_probs))\<close>
  (lines 15-16, and again lines 32-33).
\<close>

definition neg_plogp_sum :: "real list \<Rightarrow> real" where
  "neg_plogp_sum probs =
     (let nonzero_probs = filter (\<lambda>p. p > 0) probs
      in - sum_list (map (\<lambda>p. p * ln p) nonzero_probs))"

text \<open>\<^verbatim>\<open>for xi in x: x_counter[xi] += 1\<close>\<close>

fun count_loop :: "'a list \<Rightarrow> ('a, nat) dict \<Rightarrow> error + ('a, nat) dict" where
  "count_loop [] x_counter = Inr x_counter"
| "count_loop (xi # xs) x_counter =
     and_then (dict_incr x_counter xi) (count_loop xs)"

definition marginal_entropy :: "'a list \<Rightarrow> error + real" where
  "marginal_entropy x =
     and_then (count_loop x (dict_const x 0)) (\<lambda>x_counter.
     and_then (traverse (\<lambda>xi. and_then (dict_get x_counter xi)
                                 (\<lambda>c. py_truediv (real c) (real (length x)))) x) (\<lambda>probs.
     Inr (neg_plogp_sum probs)))"

text \<open>
  The empirical Shannon entropy as the specification words it: one term per distinct
  value \<open>v\<close>, with \<open>p\<^sub>v = count v / len x\<close>.
\<close>

definition empirical_prob :: "'a list \<Rightarrow> 'a \<Rightarrow> real" where
  "empirical_prob x v = real (count_list x v) / real (length x)"

definition shannon_entropy :: "'a list \<Rightarrow> real" where
  "shannon_entropy x =
     - (\<Sum>v\<leftarrow>remdups x. empirical_prob x v * ln (empirical_prob x v))"

text \<open>
  \<^verbatim>\<open>xs[i]\<close> for an index that is never negative here: out of range raises
  \<^verbatim>\<open>IndexError\<close> (lists and numpy arrays alike).
\<close>

definition py_index :: "'a list \<Rightarrow> nat \<Rightarrow> error + 'a" where
  "py_index xs i = (if i < length xs then Inr (xs ! i) else Inl IndexError)"

text \<open>
  Lines 23-27 of \<^verbatim>\<open>conditional_entropy\<close>: the loop over \<^verbatim>\<open>range(len(x))\<close> that fills
  \<^verbatim>\<open>y_counter\<close> and \<^verbatim>\<open>x_by_y_counter\<close>.
\<close>

fun joint_count_loop ::
  "'a list \<Rightarrow> 'b list \<Rightarrow> nat list \<Rightarrow> ('b, nat) dict \<times> ('b, ('a, nat) dict) dict
     \<Rightarrow> error + ('b, nat) dict \<times> ('b, ('a, nat) dict) dict" where
  "joint_count_loop x y [] cs = Inr cs"
| "joint_count_loop x y (i # rest) (y_counter, x_by_y_counter) =
     and_then (py_index x i) (\<lambda>xi.
     and_then (py_index y i) (\<lambda>yi.
     and_then (dict_incr y_counter yi) (\<lambda>y_counter'.
     and_then (dict_get x_by_y_counter yi) (\<lambda>inner.
     and_then (dict_incr inner xi) (\<lambda>inner'.
     joint_count_loop x y rest (y_counter', AList.update yi inner' x_by_y_counter))))))"

text \<open>Lines 29-34: the loop over \<^verbatim>\<open>y_counter.keys()\<close>.\<close>

fun cond_entropy_loop ::
  "'b list \<Rightarrow> ('b, nat) dict \<Rightarrow> ('b, ('a, nat) dict) dict \<Rightarrow> nat \<Rightarrow> real \<Rightarrow> error + real" where
  "cond_entropy_loop [] y_counter x_by_y_counter len_y entropy = Inr entropy"
| "cond_entropy_loop (yi # keys) y_counter x_by_y_counter len_y entropy =
     and_then (dict_get x_by_y_counter yi) (\<lambda>inner.
     and_then (traverse (\<lambda>c. and_then (dict_get y_counter yi)
                                (\<lambda>n. py_truediv (real c) (real n))) (map snd inner)) (\<lambda>x_by_yi.
     and_then (dict_get y_counter yi) (\<lambda>n.
     and_then (py_truediv (real n) (real len_y)) (\<lambda>weight.
     cond_entropy_loop keys y_counter x_by_y_counter len_y
       (entropy + weight * neg_plogp_sum x_by_yi)))))"

definition conditional_entropy :: "'a list \<Rightarrow> 'b list \<Rightarrow> error + real" where
  "conditional_entropy x y =
     and_then (joint_count_loop x y [0..<length x] (dict_const y 0, dict_const y (dict_const x 0)))
       (\<lambda>(y_counter, x_by_y_counter).
     cond_entropy_loop (map fst y_counter) y_counter x_by_y_counter (length y) 0)"

text \<open>
  What the counting loop of \<^verbatim>\<open>conditional_entropy\<close> relies on: every value of \<open>y\<close> is a key of
  \<^verbatim>\<open>y_counter\<close> and of \<^verbatim>\<open>x_by_y_counter\<close>, and every inner dictionary has every value of \<open>x\<close>.
\<close>

definition counters_ok ::
  "'a list \<Rightarrow> 'b list \<Rightarrow> ('b, nat) dict \<Rightarrow> ('b, ('a, nat) dict) dict \<Rightarrow> bool" where
  "counters_ok x y y_counter x_by_y_counter \<longleftrightarrow>
     (\<forall>k\<in>set y. \<exists>c. map_of y_counter k = Some c) \<and>
     (\<forall>k\<in>set y. \<exists>inner. map_of x_by_y_counter k = Some inner
                      \<and> (\<forall>v\<in>set x. \<exists>d. map_of inner v = Some d))"

definition mutual_information :: "'a list \<Rightarrow> 'b list \<Rightarrow> error + real" where
  "mutual_information x y =
     and_then (marginal_entropy x) (\<lambda>hx.
     and_then (conditional_entropy x y) (\<lambda>hxy. Inr (hx - hxy)))"

section \<open>RedundancyRanker (MIM stage)\<close>

text \<open>
  A feature matrix is the list of its rows (features are rows, samples are columns);
  \<^verbatim>\<open>g_num, _ = genes.shape\<close> reads the number of rows.
\<close>

type_synonym 'a matrix = "'a list list"

definition genes_mutual_information :: "'a matrix \<Rightarrow> error + real list" where
  "genes_mutual_information genes =
     (let g_num = length genes in
      and_then
        (traverse (\<lambda>i. traverse (\<lambda>j.
            if i \<noteq> j
            then and_then (py_index genes i) (\<lambda>gi.
                 and_then (py_index genes j) (\<lambda>gj. mutual_information gi gj))
            else Inr 0) [0..<g_num]) [0..<g_num])
        (\<lambda>mi_matrix. Inr (map sum_list mi_matrix)))"

text \<open>\<^verbatim>\<open>xs[:n]\<close>: a negative bound counts from the end.\<close>

definition py_slice_to :: "'a list \<Rightarrow> int \<Rightarrow> 'a list" where
  "py_slice_to xs n =
     (if n \<ge> 0 then take (nat n) xs else take (length xs - nat (- n)) xs)"

text \<open>
  \<^verbatim>\<open>_mim_filter\<close>. \<^verbatim>\<open>sorted\<close> orders the pairs \<^verbatim>\<open>(score, index)\<close> lexicographically.
  The slice bound is read from the attribute \<^verbatim>\<open>mim_size\<close>, as line 165 writes it, after the
  sorted list has been built.
\<close>

definition mim_filter :: "obj \<Rightarrow> 'a matrix \<Rightarrow> error + nat list" where
  "mim_filter self genes =
     (let g_num = length genes in
      and_then (genes_mutual_information genes) (\<lambda>mi_vector.
      let seq_nums = [0..<g_num];
          ranked = map snd (sort (zip mi_vector seq_nums))
      in and_then (getattr_int self ''mim_size'') (\<lambda>n. Inr (py_slice_to ranked n))))"

section \<open>Adaptive probabilities\<close>

definition crossover_probability :: "obj \<Rightarrow> real \<Rightarrow> real \<Rightarrow> real \<Rightarrow> error + real" where
  "crossover_probability self f_max f_avg f_par =
     (if f_par \<ge> f_avg then
        (if f_max \<noteq> f_avg
         then and_then (getattr_num self ''_k1'')
                (\<lambda>k1. Inr (k1 * ((f_max - f_par) / (f_max - f_avg))))
         else Inr 1)
      else getattr_num self ''_k2'')"

definition mutation_probability :: "obj \<Rightarrow> real \<Rightarrow> real \<Rightarrow> real \<Rightarrow> error + real" where
  "mutation_probability self f_max f_avg f_par =
     (if f_par \<ge> f_avg then
        (if f_max \<noteq> f_avg
         then and_then (getattr_num self ''_k3'')
                (\<lambda>k3. Inr (k3 * ((f_max - f_par) / (f_max - f_avg))))
         else Inr 1)
      else getattr_num self ''_k4'')"

section \<open>ChromosomeCodec\<close>

text \<open>A chromosome is a list of Python integers; \<^verbatim>\<open>mapping\<close> is the index map.\<close>

fun decode_loop ::
  "(nat, nat) dict \<Rightarrow> int list \<Rightarrow> 'a matrix \<Rightarrow> 'a matrix \<Rightarrow> nat list
     \<Rightarrow> 'a matrix \<times> 'a matrix \<Rightarrow> error + 'a matrix \<times> 'a matrix" where
  "decode_loop mapping chromosome train test [] acc = Inr acc"
| "decode_loop mapping chromosome train test (i # rest) (filtered_train, filtered_test) =
     and_then (py_index chromosome i) (\<lambda>bit.
     if bit = 1 then
       and_then (dict_get mapping i) (\<lambda>initial_index.
       and_then (py_index train initial_index) (\<lambda>tr.
       and_then (py_index test initial_index) (\<lambda>te.
       decode_loop mapping chromosome train test rest
         (filtered_train @ [tr], filtered_test @ [te]))))
     else decode_loop mapping chromosome train test rest (filtered_train, filtered_test))"

definition decode_genes ::
  "(nat, nat) dict \<Rightarrow> int list \<Rightarrow> 'a matrix \<Rightarrow> 'a matrix \<Rightarrow> error + 'a matrix \<times> 'a matrix" where
  "decode_genes mapping chromosome train test =
     decode_loop mapping chromosome train test [0..<length chromosome] ([], [])"

section \<open>Program state: the mask store, the random source, the classifier\<close>

text \<open>
  Chromosomes are Python lists, shared by reference between the population, the scored
  population and the offspring list. The store \<open>heap\<close> holds one cell per list object
  and a population is a list of addresses (indices into the store); a fresh list is a
  new cell at the end. \<open>draws\<close> counts the calls made to \<^verbatim>\<open>random.randint\<close> and
  \<open>evals\<close> the classifiers fitted so far.
\<close>

record world =
  heap :: "int list list"
  draws :: nat
  evals :: nat

type_synonym addr = nat

definition alloc :: "int list \<Rightarrow> world \<Rightarrow> addr \<times> world" where
  "alloc xs w = (length (heap w), w\<lparr>heap := heap w @ [xs]\<rparr>)"

text \<open>
  \<^verbatim>\<open>random.randint(a, b)\<close> returns some \<open>N\<close> with \<open>a \<le> N \<le> b\<close> and raises
  \<^verbatim>\<open>ValueError\<close> on an empty range. The random source is a parameter \<open>rnd\<close>: its
  \<open>k\<close>-th value decides the \<open>k\<close>-th call, reduced into the requested range, so that every
  outcome of the generator is the behaviour under some \<open>rnd\<close>.
\<close>

definition randint :: "(nat \<Rightarrow> nat) \<Rightarrow> int \<Rightarrow> int \<Rightarrow> world \<Rightarrow> error + int \<times> world" where
  "randint rnd a b w =
     (if a > b then Inl ValueError
      else Inr (a + int (rnd (draws w) mod nat (b - a + 1)), w\<lparr>draws := draws w + 1\<rparr>))"

section \<open>GeneticOperators\<close>

definition crossover ::
  "(nat \<Rightarrow> nat) \<Rightarrow> addr \<Rightarrow> addr \<Rightarrow> world \<Rightarrow> error + (addr \<times> addr) \<times> world" where
  "crossover rnd x y w =
     and_then (randint rnd 1 (int (length (heap w ! x)) - 1) w) (\<lambda>(random_point, w1).
     let xs = heap w1 ! x; ys = heap w1 ! y; p = nat random_point;
         (child1, w2) = alloc (take p xs @ drop p (take (length xs) ys)) w1;
         (child2, w3) = alloc (take p ys @ drop p (take (length xs) xs)) w2
     in Inr ((child1, child2), w3))"

text \<open>
  \<^verbatim>\<open>mutation\<close> assigns into the list it was given and returns that same list.
\<close>

definition mutation :: "(nat \<Rightarrow> nat) \<Rightarrow> addr \<Rightarrow> world \<Rightarrow> error + addr \<times> world" where
  "mutation rnd x w =
     and_then (randint rnd 0 (int (length (heap w ! x)) - 1) w) (\<lambda>(random_point, w1).
     let xs = heap w1 ! x; p = nat random_point
     in Inr (x, w1\<lparr>heap := (heap w1)[x := xs[p := (xs ! p - 1) mod 2]]\<rparr>))"

text \<open>\<^verbatim>\<open>int(r)\<close> on a float truncates towards zero.\<close>

definition py_int :: "real \<Rightarrow> int" where
  "py_int r = (if r \<ge> 0 then \<lfloor>r\<rfloor> else \<lceil>r\<rceil>)"

text \<open>The first loop of \<^verbatim>\<open>cross_and_mutate\<close>, \<open>n\<close> iterations left.\<close>

fun cross_loop ::
  "(nat \<Rightarrow> nat) \<Rightarrow> (addr \<times> real) list \<Rightarrow> nat \<Rightarrow> addr list \<times> real \<Rightarrow> world
     \<Rightarrow> error + (addr list \<times> real) \<times> world" where
  "cross_loop rnd population 0 acc w = Inr (acc, w)"
| "cross_loop rnd population (Suc n) (new_population, max_parent_f) w =
     and_then (randint rnd 0 (int (length population) - 1) w) (\<lambda>(r1, w1).
     and_then (py_index population (nat r1)) (\<lambda>(parent1, f1).
     and_then (randint rnd 0 (int (length population) - 1) w1) (\<lambda>(r2, w2).
     and_then (py_index population (nat r2)) (\<lambda>(parent2, f2).
     and_then (crossover rnd parent1 parent2 w2) (\<lambda>((child1, child2), w3).
     cross_loop rnd population n
       (new_population @ [child1, child2], max (max max_parent_f f1) f2) w3)))))"

text \<open>The second loop of \<^verbatim>\<open>cross_and_mutate\<close>.\<close>

fun mutate_loop ::
  "(nat \<Rightarrow> nat) \<Rightarrow> (addr \<times> real) list \<Rightarrow> nat \<Rightarrow> addr list \<Rightarrow> world
     \<Rightarrow> error + addr list \<times> world" where
  "mutate_loop rnd population 0 new_population w = Inr (new_population, w)"
| "mutate_loop rnd population (Suc n) new_population w =
     and_then (randint rnd 0 (int (length population) - 1) w) (\<lambda>(r, w1).
     and_then (py_index population (nat r)) (\<lambda>(parent, f).
     and_then (mutation rnd parent w1) (\<lambda>(mutant, w2).
     mutate_loop rnd population n (new_population @ [mutant]) w2)))"

definition cross_and_mutate ::
  "(nat \<Rightarrow> nat) \<Rightarrow> real \<Rightarrow> real \<Rightarrow> (addr \<times> real) list \<Rightarrow> world
     \<Rightarrow> error + (addr list \<times> real) \<times> world" where
  "cross_and_mutate rnd pc pm population w =
     (let cross_number = py_int (pc * real (length population));
          mutate_number = py_int (pm * real (length population));
          max_parent_f = 0;
          new_population = map fst population
      in and_then (cross_loop rnd population (nat cross_number) (new_population, max_parent_f) w)
           (\<lambda>((new_population, max_parent_f), w1).
         and_then (mutate_loop rnd population (nat mutate_number) new_population w1)
           (\<lambda>(new_population, w2). Inr ((new_population, max_parent_f), w2))))"

section \<open>FitnessEvaluator\<close>

text \<open>
  Lines 85-87 call the external classifier: fit on the decoded train rows and the train
  labels, predict the decoded test rows, score against the test labels. That capability is
  the parameter \<open>clf\<close>; it may raise.
\<close>

type_synonym ('a, 'c) classifier =
  "'a matrix \<Rightarrow> 'c list \<Rightarrow> 'a matrix \<Rightarrow> 'c list \<Rightarrow> error + real"

fun fitness_loop ::
  "('a, 'c) classifier \<Rightarrow> (nat, nat) dict \<Rightarrow> addr list \<Rightarrow> 'a matrix \<Rightarrow> 'c list \<Rightarrow> 'a matrix
     \<Rightarrow> 'c list \<Rightarrow> (addr \<times> real) list \<times> real \<Rightarrow> world
     \<Rightarrow> error + ((addr \<times> real) list \<times> real) \<times> world" where
  "fitness_loop clf mapping [] train train_cl test test_cl acc w = Inr (acc, w)"
| "fitness_loop clf mapping (p # rest) train train_cl test test_cl (code_fitness, f_sum) w =
     and_then (decode_genes mapping (heap w ! p) train test) (\<lambda>(filtered_train, filtered_test).
     if length filtered_train = 0
     then fitness_loop clf mapping rest train train_cl test test_cl (code_fitness, f_sum) w
     else and_then (clf filtered_train train_cl filtered_test test_cl) (\<lambda>f.
          fitness_loop clf mapping rest train train_cl test test_cl
            (code_fitness @ [(p, f)], f_sum + f) (w\<lparr>evals := evals w + 1\<rparr>)))"

text \<open>
  \<^verbatim>\<open>code_fitness.sort(key=lambda p: p[1], reverse=True)\<close> is stable: equal fitnesses keep
  their order, which is what \<^const>\<open>sort_key\<close> does on the negated key.
\<close>

definition population_fitness ::
  "('a, 'c) classifier \<Rightarrow> (nat, nat) dict \<Rightarrow> addr list \<Rightarrow> 'a matrix \<Rightarrow> 'c list \<Rightarrow> 'a matrix
     \<Rightarrow> 'c list \<Rightarrow> world \<Rightarrow> error + ((addr \<times> real) list \<times> real \<times> real) \<times> world" where
  "population_fitness clf mapping population train train_cl test test_cl w =
     and_then (fitness_loop clf mapping population train train_cl test test_cl ([], 0) w)
       (\<lambda>((code_fitness, f_sum), w1).
     let code_fitness = sort_key (\<lambda>p. - snd p) code_fitness
     in and_then (py_index code_fitness 0) (\<lambda>top.
        let f_max = snd top
        in and_then (py_truediv f_sum (real (length population))) (\<lambda>f_avg.
           Inr ((code_fitness, f_max, f_avg), w1))))"

section \<open>AdaptiveSearch (AGA stage)\<close>

text \<open>\<^verbatim>\<open>a << n\<close> raises \<^verbatim>\<open>ValueError\<close> on a negative shift count.\<close>

definition py_lshift :: "int \<Rightarrow> int \<Rightarrow> error + int" where
  "py_lshift a n = (if n < 0 then Inl ValueError else Inr (a * 2 ^ nat n))"

text \<open>\<^verbatim>\<open>list(map(int, bin(n)[2:]))\<close> for \<open>n \<ge> 0\<close>: the binary digits, most significant first.\<close>

fun bin_digits :: "nat \<Rightarrow> int list" where
  "bin_digits n = (if n < 2 then [int n] else bin_digits (n div 2) @ [int (n mod 2)])"

text \<open>\<^verbatim>\<open>s.zfill(width)\<close> pads on the left and never shortens.\<close>

definition zfill :: "int list \<Rightarrow> int \<Rightarrow> int list" where
  "zfill ds width = replicate (nat (width - int (length ds))) 0 @ ds"

text \<open>
  The loop of \<^verbatim>\<open>_initial_population\<close>, \<open>n\<close> iterations left. In
  \<^verbatim>\<open>2 << self._mim_size - 1\<close> the subtraction binds tighter than the shift.
\<close>

fun initial_population_loop ::
  "(nat \<Rightarrow> nat) \<Rightarrow> obj \<Rightarrow> nat \<Rightarrow> addr list \<Rightarrow> world \<Rightarrow> error + addr list \<times> world" where
  "initial_population_loop rnd self 0 population w = Inr (population, w)"
| "initial_population_loop rnd self (Suc n) population w =
     and_then (getattr_int self ''_mim_size'') (\<lambda>mim_size.
     and_then (py_lshift 2 (mim_size - 1)) (\<lambda>upper.
     and_then (randint rnd 1 upper w) (\<lambda>(individual_num, w1).
     and_then (getattr_int self ''_mim_size'') (\<lambda>width.
     let (individual_code, w2) = alloc (zfill (bin_digits (nat individual_num)) width) w1
     in initial_population_loop rnd self n (population @ [individual_code]) w2))))"

definition initial_population ::
  "(nat \<Rightarrow> nat) \<Rightarrow> obj \<Rightarrow> world \<Rightarrow> error + addr list \<times> world" where
  "initial_population rnd self w =
     and_then (getattr_int self ''_pop_size'')
       (\<lambda>pop_size. initial_population_loop rnd self (nat pop_size) [] w)"

text \<open>
  The shape a mask of the initial population can have: at least one 1-bit, and as many
  bits as \<open>mim_size\<close> or one more.
\<close>

definition good_mask :: "int \<Rightarrow> int list \<Rightarrow> bool" where
  "good_mask ms m \<longleftrightarrow> 1 \<in> set m \<and> (length m = nat ms \<or> length m = nat ms + 1)"

text \<open>
  The \<^verbatim>\<open>while\<close> loop of \<^verbatim>\<open>_aga_filter\<close>. The test reads \<^verbatim>\<open>self._max_iter\<close>, and
  \<^verbatim>\<open>self._f_target\<close> only when the first conjunct holds.
\<close>

definition max_iter_of :: "obj \<Rightarrow> real" where
  "max_iter_of self = (case getattr_num self ''_max_iter'' of Inl e \<Rightarrow> 0 | Inr m \<Rightarrow> m)"

function aga_loop ::
  "('a, 'c) classifier \<Rightarrow> (nat \<Rightarrow> nat) \<Rightarrow> obj \<Rightarrow> int \<Rightarrow> (nat, nat) dict \<Rightarrow> 'a matrix \<Rightarrow> 'c list
     \<Rightarrow> 'a matrix \<Rightarrow> 'c list \<Rightarrow> addr list \<Rightarrow> real \<Rightarrow> real \<Rightarrow> int \<Rightarrow> addr \<Rightarrow> world
     \<Rightarrow> error + (addr \<times> real) \<times> world" where
  "aga_loop clf rnd self max_size mapping train train_cl test test_cl
            population f_par f_max counter best_individual w =
     (case getattr_num self ''_max_iter'' of
        Inl e \<Rightarrow> Inl e
      | Inr max_iter \<Rightarrow>
          if \<not> real_of_int counter < max_iter then Inr ((best_individual, f_max), w)
          else
            (case getattr_num self ''_f_target'' of
               Inl e \<Rightarrow> Inl e
             | Inr f_target \<Rightarrow>
                 if \<not> f_max < f_target then Inr ((best_individual, f_max), w)
                 else
                   and_then (population_fitness clf mapping population train train_cl test test_cl w)
                     (\<lambda>((code_fitness, f_max', f_avg), w1).
                   let (code_fitness, population) =
                         (if int (length code_fitness) > max_size
                          then (py_slice_to code_fitness max_size,
                                map fst (py_slice_to code_fitness max_size))
                          else (code_fitness, population));
                       highly_fitted = filter (\<lambda>x. snd x \<ge> f_max' / 2) code_fitness;
                       highly_fitted =
                         (if length highly_fitted = 0 then code_fitness else highly_fitted)
                   in and_then (py_index code_fitness 0) (\<lambda>top.
                      and_then (crossover_probability self f_max' f_avg f_par) (\<lambda>pc.
                      and_then (mutation_probability self f_max' f_avg f_par) (\<lambda>pm.
                      and_then (cross_and_mutate rnd pc pm highly_fitted w1)
                        (\<lambda>((new_generation, f_par'), w2).
                      aga_loop clf rnd self max_size mapping train train_cl test test_cl
                        (population @ new_generation) f_par' f_max' (counter + 1) (fst top) w2)))))))"
  by pat_completeness auto
termination
proof (relation "measure (\<lambda>(clf, rnd, self, max_size, mapping, train, train_cl, test, test_cl,
                             population, f_par, f_max, counter, best_individual, w).
                           nat \<lceil>max_iter_of self - real_of_int counter\<rceil>)")
  show "wf (measure (\<lambda>(clf :: ('a, 'c) classifier, rnd :: nat \<Rightarrow> nat, self :: obj,
                        max_size :: int, mapping :: (nat, nat) dict, train :: 'a matrix,
                        train_cl :: 'c list, test :: 'a matrix, test_cl :: 'c list,
                        population :: addr list, f_par :: real, f_max :: real, counter :: int,
                        best_individual :: addr, w :: world).
                      nat \<lceil>max_iter_of self - real_of_int counter\<rceil>))"
    by simp
next
  fix self :: obj and counter :: int and max_iter :: real
  fix clf :: "('a, 'c) classifier" and rnd :: "nat \<Rightarrow> nat" and max_size :: int
    and mapping :: "(nat, nat) dict" and train test :: "'a matrix" and train_cl test_cl :: "'c list"
    and population population' :: "addr list" and f_par f_par' f_max f_max' :: real
    and best_individual best' :: addr and w w' :: world
  assume m: "getattr_num self ''_max_iter'' = Inr max_iter"
    and c: "\<not> \<not> real_of_int counter < max_iter"
  from m have "max_iter_of self = max_iter"
    by (simp add: max_iter_of_def)
  moreover from c have "\<lceil>max_iter - real_of_int counter\<rceil> \<ge> 1"
    by linarith
  moreover have "\<lceil>max_iter - real_of_int (counter + 1)\<rceil> = \<lceil>max_iter - real_of_int counter\<rceil> - 1"
    by (simp add: algebra_simps) linarith
  ultimately show
    "((clf, rnd, self, max_size, mapping, train, train_cl, test, test_cl,
       population', f_par', f_max', counter + 1, best', w'),
      (clf, rnd, self, max_size, mapping, train, train_cl, test, test_cl,
       population, f_par, f_max, counter, best_individual, w))
     \<in> measure (\<lambda>(clf, rnd, self, max_size, mapping, train, train_cl, test, test_cl,
                   population, f_par, f_max, counter, best_individual, w).
                 nat \<lceil>max_iter_of self - real_of_int counter\<rceil>)"
    by simp
qed

definition aga_filter ::
  "('a, 'c) classifier \<Rightarrow> (nat \<Rightarrow> nat) \<Rightarrow> obj \<Rightarrow> int \<Rightarrow> (nat, nat) dict \<Rightarrow> addr list
     \<Rightarrow> 'a matrix \<Rightarrow> 'c list \<Rightarrow> 'a matrix \<Rightarrow> 'c list \<Rightarrow> world
     \<Rightarrow> error + (addr \<times> real) \<times> world" where
  "aga_filter clf rnd self max_size mapping population train train_cl test test_cl w =
     (let f_par = 0; f_max = 0; counter = 0
      in and_then (py_index population 0) (\<lambda>first.
         let (best_individual, w1) = alloc (replicate (length (heap w ! first)) 1) w
         in aga_loop clf rnd self max_size mapping train train_cl test test_cl
              population f_par f_max counter best_individual w1))"

section \<open>Orchestrator\<close>

text \<open>
  \<^verbatim>\<open>train_test_split\<close> is external and random; it is the parameter \<open>split\<close>, from the
  transposed matrix and the labels to \<^verbatim>\<open>(train_set, test_set, train_classes, test_classes)\<close>
  with samples as rows. \<^verbatim>\<open>dict(zip(range(mim_size), filtered_indexes))\<close> has distinct keys,
  so it is the zipped list itself.
\<close>

definition mimaga_filter ::
  "('a matrix \<Rightarrow> 'c list \<Rightarrow> error + 'a matrix \<times> 'a matrix \<times> 'c list \<times> 'c list)
     \<Rightarrow> ('a, 'c) classifier \<Rightarrow> (nat \<Rightarrow> nat) \<Rightarrow> obj \<Rightarrow> 'a matrix \<Rightarrow> 'c list \<Rightarrow> world
     \<Rightarrow> error + ('a matrix \<times> real) \<times> world" where
  "mimaga_filter split clf rnd self genes classes w =
     (let genes_T = transpose genes
      in and_then (split genes_T classes) (\<lambda>(train_set, test_set, train_classes, test_classes).
         and_then (mim_filter self (transpose train_set)) (\<lambda>filtered_indexes.
         and_then (getattr_int self ''_mim_size'') (\<lambda>mim_size.
         let index_map = zip [0..<nat mim_size] filtered_indexes
         in and_then (initial_population rnd self w) (\<lambda>(first_population, w1).
            and_then (getattr_int self ''_pop_size'') (\<lambda>pop_size.
            and_then (aga_filter clf rnd self (pop_size * 2) index_map first_population
                        (transpose train_set) train_classes (transpose test_set) test_classes w1)
              (\<lambda>((best, max_fitness), w2).
            and_then (decode_genes index_map (heap w2 ! best)
                        (transpose train_set) (transpose test_set)) (\<lambda>(result_genes, _).
            Inr ((result_genes, max_fitness), w2)))))))))"

section \<open>Basic facts\<close>

lemma and_then_Inl [simp]: "and_then (Inl e) f = Inl e"
  by (simp add: and_then_def)

lemma and_then_Inr [simp]: "and_then (Inr v) f = f v"
  by (simp add: and_then_def)

lemma and_then_eq_Inr:
  "and_then m f = Inr r \<longleftrightarrow> (\<exists>v. m = Inr v \<and> f v = Inr r)"
  by (cases m) simp_all

lemma getattr_init_k [simp]:
  "getattr_num (init ms ps mi ft k1 k2 k3 k4) ''_k1'' = Inr k1"
  "getattr_num (init ms ps mi ft k1 k2 k3 k4) ''_k2'' = Inr k2"
  "getattr_num (init ms ps mi ft k1 k2 k3 k4) ''_k3'' = Inr k3"
  "getattr_num (init ms ps mi ft k1 k2 k3 k4) ''_k4'' = Inr k4"
  by (simp_all add: getattr_num_def getattr_def init_def)

declare aga_loop.simps [simp del]
declare bin_digits.simps [simp del]

lemma traverse_total:
  "(\<And>a. a \<in> set xs \<Longrightarrow> f a = Inr (g a)) \<Longrightarrow> traverse f xs = Inr (map g xs)"
  by (induction xs) simp_all

lemma map_of_dict_fold:
  "map_of (fold (\<lambda>k. AList.update k v) ks d) k = (if k \<in> set ks then Some v else map_of d k)"
  by (induction ks arbitrary: d) (simp_all add: update_conv')

lemma map_of_dict_const:
  "map_of (dict_const ks v) k = (if k \<in> set ks then Some v else None)"
  by (simp add: dict_const_def map_of_dict_fold)

section \<open>What \<open>marginal_entropy\<close> computes\<close>

text \<open>
  After the counting loop every key holds its initial value plus the number of times it
  occurs in the sequence, provided the dictionary had all the keys to begin with.
\<close>

lemma count_loop_counts:
  "set xs \<subseteq> dom (map_of d) \<Longrightarrow>
   \<exists>d'. count_loop xs d = Inr d' \<and>
        (\<forall>k. map_of d' k = map_option (\<lambda>c. c + count_list xs k) (map_of d k))"
proof (induction xs arbitrary: d)
  case Nil
  then show ?case by (simp add: option.map_ident)
next
  case (Cons a xs)
  then obtain c where c: "map_of d a = Some c" by auto
  let ?d1 = "AList.update a (c + 1) d"
  have inc: "dict_incr d a = Inr ?d1"
    by (simp add: dict_incr_def dict_get_def c)
  have "set xs \<subseteq> dom (map_of ?d1)"
    using Cons.prems by (auto simp: update_conv')
  from Cons.IH [OF this] obtain d' where d': "count_loop xs ?d1 = Inr d'"
    "\<forall>k. map_of d' k = map_option (\<lambda>c. c + count_list xs k) (map_of ?d1 k)" by blast
  show ?case
    using d' c by (auto simp: inc update_conv' map_option_case split: option.splits)
qed

text \<open>
  The function never raises, and its sum has one term per \<^emph>\<open>element\<close> of the sequence:
  \<^verbatim>\<open>probs\<close> is built by mapping over \<^verbatim>\<open>x\<close>, not over the keys of \<^verbatim>\<open>x_counter\<close>.
\<close>

lemma marginal_entropy_value:
  "marginal_entropy x = Inr (- (\<Sum>xi\<leftarrow>x. empirical_prob x xi * ln (empirical_prob x xi)))"
proof -
  have "set x \<subseteq> dom (map_of (dict_const x (0::nat)))"
    by (auto simp: map_of_dict_const)
  from count_loop_counts [OF this] obtain d' where d': "count_loop x (dict_const x 0) = Inr d'"
    "\<forall>k. map_of d' k = map_option (\<lambda>c. c + count_list x k) (map_of (dict_const x 0) k)" by blast
  have get: "dict_get d' xi = Inr (count_list x xi)" if "xi \<in> set x" for xi
    using that d'(2) by (simp add: dict_get_def map_of_dict_const)
  have len: "real (length x) \<noteq> 0" if "xi \<in> set x" for xi
    using that by (cases x) auto
  have tr: "traverse (\<lambda>xi. and_then (dict_get d' xi) (\<lambda>c. py_truediv (real c) (real (length x)))) x
            = Inr (map (empirical_prob x) x)"
    by (rule traverse_total) (use get len in \<open>auto simp: py_truediv_def empirical_prob_def\<close>)
  have pos: "empirical_prob x xi > 0" if "xi \<in> set x" for xi
  proof -
    have "count_list x xi \<noteq> 0" using that by (simp add: count_list_0_iff)
    then have "count_list x xi > 0" by simp
    moreover have "length x > 0" using that by (cases x) auto
    ultimately show ?thesis by (simp add: empirical_prob_def)
  qed
  have "filter (\<lambda>p. p > 0) (map (empirical_prob x) x) = map (empirical_prob x) x"
    by (rule filter_True) (use pos in auto)
  then have "neg_plogp_sum (map (empirical_prob x) x)
             = - (\<Sum>xi\<leftarrow>x. empirical_prob x xi * ln (empirical_prob x xi))"
    by (simp add: neg_plogp_sum_def comp_def)
  then show ?thesis
    by (simp add: marginal_entropy_def d'(1) tr)
qed

lemma ln_four: "ln (4::real) = 2 * ln 2"
proof -
  have "ln (4::real) = ln (2 * 2)" by simp
  also have "\<dots> = ln 2 + ln 2" by (simp only: ln_mult) simp
  finally show ?thesis by simp
qed

text \<open>
  \<^verbatim>\<open>conditional_entropy\<close> does take one term per distinct value (it maps over the values
  of the inner dictionary). Against a constant \<open>y\<close> it returns the Shannon entropy \<open>ln 2\<close>
  of \<open>[0, 0, 1, 1]\<close>, so the two functions disagree and the mutual information with a
  constant comes out as \<open>ln 2\<close> instead of \<open>0\<close>.
\<close>

lemma conditional_entropy_constant:
  "conditional_entropy [0, 0, 1, 1 :: nat] [5, 5, 5, 5 :: nat] = Inr (ln 2)"
  by (simp add: conditional_entropy_def dict_const_def dict_incr_def dict_get_def py_index_def
      py_truediv_def neg_plogp_sum_def upt_rec ln_div)

lemma mutual_information_constant:
  "mutual_information [0, 0, 1, 1 :: nat] [5, 5, 5, 5 :: nat] = Inr (ln 2)"
proof -
  have h: "marginal_entropy [0, 0, 1, 1 :: nat] = Inr (2 * ln 2)"
    by (simp add: marginal_entropy_value empirical_prob_def ln_div ln_four)
  show ?thesis
    by (simp only: mutual_information_def h conditional_entropy_constant and_then_Inr) simp
qed

text \<open>
  Claim C1: for every non-empty sequence \<open>x\<close>, \<^verbatim>\<open>marginal_entropy(x)\<close> is the empirical
  Shannon entropy of \<open>x\<close>, each distinct value contributing exactly one term
  \<open>p\<^sub>v \<cdot> log p\<^sub>v\<close>. The code does not do this: on \<open>[0, 0, 1, 1]\<close> both values have
  probability \<open>1/2\<close>, the Shannon entropy is \<open>ln 2\<close>, and the code returns \<open>2 \<cdot> ln 2\<close>
  because each of the four elements contributes a term.
\<close>

theorem marginal_entropy_counts_every_element:
  "marginal_entropy [0, 0, 1, 1 :: nat] = Inr (2 * ln 2)
   \<and> shannon_entropy [0, 0, 1, 1 :: nat] = ln 2
   \<and> marginal_entropy [0, 0, 1, 1 :: nat] \<noteq> Inr (shannon_entropy [0, 0, 1, 1 :: nat])"
  by (simp add: marginal_entropy_value shannon_entropy_def empirical_prob_def ln_div ln_four)

text \<open>
  Claim C9: \<^verbatim>\<open>marginal_entropy\<close> applied to the empty sequence raises. It does not: the
  division by \<^verbatim>\<open>len(x)\<close> sits inside the map over \<^verbatim>\<open>x\<close> and is never evaluated, the sum
  of the empty array is \<open>0\<close>, and the call returns normally.
\<close>

theorem marginal_entropy_empty_does_not_raise:
  "\<not> isl (marginal_entropy ([] :: nat list))"
  by (simp add: marginal_entropy_def dict_const_def neg_plogp_sum_def)

text \<open>
  Claim C9, as amended: \<^verbatim>\<open>marginal_entropy\<close> applied to the empty sequence returns \<open>0\<close>
  without raising.
\<close>

theorem marginal_entropy_empty:
  "marginal_entropy [] = Inr 0"
  by (simp add: marginal_entropy_value)

section \<open>Properties of the adaptive probabilities\<close>

text \<open>
  Claim C8: on an instance built by \<^verbatim>\<open>__init__\<close>, for all fitness values
  \<open>f_max\<close>, \<open>f_avg\<close> and reference \<open>f_par\<close>, \<^verbatim>\<open>_crossover_probability\<close> returns
  \<open>k1 \<cdot> (f_max - f_par) / (f_max - f_avg)\<close> when \<open>f_par \<ge> f_avg\<close> and \<open>f_max \<noteq> f_avg\<close>,
  exactly \<open>1\<close> when \<open>f_par \<ge> f_avg\<close> and \<open>f_max = f_avg\<close>, and exactly \<open>k2\<close> when
  \<open>f_par < f_avg\<close>; \<^verbatim>\<open>_mutation_probability\<close> does the same with \<open>k3\<close> and \<open>k4\<close>.
\<close>

theorem adaptive_probability_branches:
  "crossover_probability (init ms ps mi ft k1 k2 k3 k4) f_max f_avg f_par =
     Inr (if f_par \<ge> f_avg
          then (if f_max \<noteq> f_avg then k1 * ((f_max - f_par) / (f_max - f_avg)) else 1)
          else k2)
   \<and> mutation_probability (init ms ps mi ft k1 k2 k3 k4) f_max f_avg f_par =
     Inr (if f_par \<ge> f_avg
          then (if f_max \<noteq> f_avg then k3 * ((f_max - f_par) / (f_max - f_avg)) else 1)
          else k4)"
  by (simp add: crossover_probability_def mutation_probability_def)

section \<open>Properties of the FitnessEvaluator\<close>

lemma sum_insort_key:
  "sum_list (map g (insort_key f x xs)) = g x + sum_list (map g xs)"
  for g :: "'a \<Rightarrow> real"
  by (induction xs) (simp_all add: algebra_simps)

lemma sum_sort_key: "sum_list (map g (sort_key f xs)) = sum_list (map g xs)"
  for g :: "'a \<Rightarrow> real"
  by (induction xs) (simp_all add: sum_insort_key)

text \<open>A mask without a 1-bit decodes to the empty pair, whatever the index map.\<close>

lemma decode_loop_no_bit:
  "1 \<notin> set chromosome \<Longrightarrow> \<forall>i\<in>set idxs. i < length chromosome \<Longrightarrow>
   decode_loop mapping chromosome train test idxs acc = Inr acc"
proof (induction idxs)
  case Nil
  then show ?case by simp
next
  case (Cons i rest)
  obtain ftr fte where acc: "acc = (ftr, fte)"
    by (cases acc)
  from Cons.prems have "chromosome ! i \<noteq> 1"
    by (metis list.set_intros(1) nth_mem)
  with Cons show ?case
    by (simp add: acc py_index_def)
qed

lemma decode_genes_no_bit:
  "1 \<notin> set chromosome \<Longrightarrow> decode_genes mapping chromosome train test = Inr ([], [])"
  by (simp add: decode_genes_def decode_loop_no_bit)

text \<open>Skipped individuals leave the accumulators and the state untouched.\<close>

lemma fitness_loop_skips:
  "\<forall>p\<in>set population. decode_genes mapping (heap w ! p) train test = Inr ([], []) \<Longrightarrow>
   fitness_loop clf mapping population train train_cl test test_cl acc w = Inr (acc, w)"
proof (induction population)
  case Nil
  then show ?case by simp
next
  case (Cons p rest)
  obtain code_fitness f_sum where acc: "acc = (code_fitness, f_sum)"
    by (cases acc)
  from Cons show ?case by (simp add: acc)
qed

text \<open>The running sum and the scored list grow together.\<close>

lemma fitness_loop_sum:
  "fitness_loop clf mapping population train train_cl test test_cl (cf0, s0) w = Inr ((cf, s), w')
   \<Longrightarrow> s - sum_list (map snd cf) = s0 - sum_list (map snd cf0)"
proof (induction population arbitrary: cf0 s0 w)
  case Nil
  then show ?case by simp
next
  case (Cons p rest)
  from Cons.prems obtain ftr fte where
    dec: "decode_genes mapping (heap w ! p) train test = Inr (ftr, fte)"
    by (cases "decode_genes mapping (heap w ! p) train test") auto
  show ?case
  proof (cases "length ftr = 0")
    case True
    with Cons.prems dec Cons.IH show ?thesis by simp
  next
    case False
    with Cons.prems dec obtain f where
      f: "clf ftr train_cl fte test_cl = Inr f"
      by (cases "clf ftr train_cl fte test_cl") auto
    with Cons.prems dec False have
      "fitness_loop clf mapping rest train train_cl test test_cl
         (cf0 @ [(p, f)], s0 + f) (w\<lparr>evals := evals w + 1\<rparr>) = Inr ((cf, s), w')"
      by simp
    from Cons.IH [OF this] show ?thesis by simp
  qed
qed

text \<open>
  Claim C6: when at least one individual decodes to a non-empty feature set,
  \<^verbatim>\<open>population_fitness\<close> reports as average the mean of the fitnesses actually computed,
  skipped individuals being left out of the denominator too. The code divides by
  \<^verbatim>\<open>len(population)\<close>: with the all-zero mask \<open>[0]\<close> and the mask \<open>[1]\<close> of fitness \<open>1\<close>,
  one fitness is computed, its mean is \<open>1\<close>, and the reported average is \<open>1/2\<close>.
\<close>

theorem population_fitness_average_counts_skipped:
  "population_fitness (\<lambda>_ _ _ _. Inr 1) [(0, 0)] [0, 1] [[5::nat]] [True] [[7]] [False]
        \<lparr>heap = [[0], [1]], draws = 0, evals = 0\<rparr>
   = Inr (([(1, 1)], 1, 1 / 2), \<lparr>heap = [[0], [1]], draws = 0, evals = 1\<rparr>)
   \<and> sum_list (map snd [(1::nat, 1::real)]) / real (length [(1::nat, 1::real)]) \<noteq> 1 / 2"
  by (simp add: population_fitness_def decode_genes_def py_index_def dict_get_def py_truediv_def)

text \<open>
  Claim C6, as amended: whenever \<^verbatim>\<open>population_fitness\<close> returns, the reported average is
  the sum of the fitnesses actually computed divided by the size of the whole population;
  skipped individuals add nothing to the numerator and are counted in the denominator.
\<close>

theorem population_fitness_average:
  assumes "population_fitness clf mapping population train train_cl test test_cl w
           = Inr ((code_fitness, f_max, f_avg), w')"
  shows "f_avg = sum_list (map snd code_fitness) / real (length population)"
proof -
  from assms obtain cf s w1 where
    loop: "fitness_loop clf mapping population train train_cl test test_cl ([], 0) w
           = Inr ((cf, s), w1)"
    unfolding population_fitness_def
    by (cases "fitness_loop clf mapping population train train_cl test test_cl ([], 0) w") auto
  from fitness_loop_sum [OF loop] have s: "s = sum_list (map snd cf)" by simp
  from assms loop have "code_fitness = sort_key (\<lambda>p. - snd p) cf"
    and "py_truediv s (real (length population)) = Inr f_avg"
    unfolding population_fitness_def
    by (auto simp: Let_def and_then_eq_Inr)
  then show ?thesis
    by (auto simp: s sum_sort_key py_truediv_def split: if_splits)
qed

theorem population_fitness_average_witness:
  "population_fitness (\<lambda>_ _ _ _. Inr (3 / 4)) [(0, 0)] [0, 1, 1] [[5::nat]] [True] [[7]] [False]
        \<lparr>heap = [[0], [1]], draws = 0, evals = 0\<rparr>
   = Inr (([(1, 3 / 4), (1, 3 / 4)], 3 / 4, 1 / 2), \<lparr>heap = [[0], [1]], draws = 0, evals = 2\<rparr>)
   \<and> (1 / 2 :: real)
       = sum_list (map snd [(1::nat, 3 / 4 :: real), (1, 3 / 4)]) / real (length [0::nat, 1, 1])"
proof -
  have h: "population_fitness (\<lambda>_ _ _ _. Inr (3 / 4)) [(0, 0)] [0, 1, 1] [[5::nat]] [True] [[7]]
        [False] \<lparr>heap = [[0], [1]], draws = 0, evals = 0\<rparr>
   = Inr (([(1, 3 / 4), (1, 3 / 4)], 3 / 4, 1 / 2), \<lparr>heap = [[0], [1]], draws = 0, evals = 2\<rparr>)"
    by (simp add: population_fitness_def decode_genes_def py_index_def dict_get_def py_truediv_def)
  from h population_fitness_average [OF h] show ?thesis by blast
qed

text \<open>
  Claim C7: when every individual of the population decodes to zero selected features,
  \<^verbatim>\<open>population_fitness\<close> raises instead of returning; in particular it does not return a
  maximum fitness of \<open>0\<close>. The scored list is empty and \<^verbatim>\<open>code_fitness[0]\<close> raises
  \<^verbatim>\<open>IndexError\<close>.
\<close>

theorem population_fitness_degenerate_raises:
  assumes "\<forall>p\<in>set population. decode_genes mapping (heap w ! p) train test = Inr ([], [])"
  shows "population_fitness clf mapping population train train_cl test test_cl w = Inl IndexError"
  by (simp add: population_fitness_def fitness_loop_skips [OF assms] py_index_def)

theorem population_fitness_degenerate_raises_witness:
  "decode_genes [(0, 0), (1, 1)] [0, 0] [[5::nat], [6]] [[7], [8]] = Inr ([], [])
   \<and> population_fitness (\<lambda>_ _ _ _. Inr 1) [(0, 0), (1, 1)] [0, 1] [[5::nat], [6]] [True]
        [[7], [8]] [False] \<lparr>heap = [[0, 0], [0, 0]], draws = 0, evals = 0\<rparr> = Inl IndexError"
proof -
  have d: "decode_genes [(0, 0), (1, 1)] [0, 0] [[5::nat], [6]] [[7], [8]] = Inr ([], [])"
    by (simp add: decode_genes_def py_index_def upt_rec)
  then have h: "\<forall>p\<in>set [0, 1]. decode_genes [(0, 0), (1, 1)]
        (heap \<lparr>heap = [[0, 0], [0, 0]], draws = 0, evals = 0\<rparr> ! p) [[5::nat], [6]] [[7], [8]]
        = Inr ([], [])"
    by simp
  from d population_fitness_degenerate_raises [OF h] show ?thesis by blast
qed

section \<open>Properties of the AdaptiveSearch loop\<close>

lemma getattr_init_loop [simp]:
  "getattr_num (init ms ps mi ft k1 k2 k3 k4) ''_max_iter'' = Inr (real_of_int mi)"
  "getattr_num (init ms ps mi ft k1 k2 k3 k4) ''_f_target'' = Inr ft"
  by (simp_all add: getattr_num_def getattr_def init_def)

text \<open>
  Claim C10: for a non-empty initial population, if \<open>max_iter = 0\<close> (or less) or
  \<open>f_target \<le> 0\<close>, \<^verbatim>\<open>_aga_filter\<close> evaluates no fitness and returns, with fitness \<open>0\<close>, a
  new all-ones mask as long as the first individual, not a mask of the population. The
  returned address is that of a fresh cell; the cells of the population, the count of
  random draws and the count of classifier fits are those of the initial state.
\<close>

theorem aga_filter_no_iteration:
  assumes "population \<noteq> []" and "max_iter \<le> 0 \<or> f_target \<le> 0"
  shows "aga_filter clf rnd (init ms ps max_iter f_target k1 k2 k3 k4) max_size mapping
           population train train_cl test test_cl w
         = Inr ((length (heap w), 0),
                w\<lparr>heap := heap w @ [replicate (length (heap w ! hd population)) 1]\<rparr>)"
proof -
  from assms(1) have idx: "py_index population 0 = Inr (hd population)"
    by (cases population) (simp_all add: py_index_def)
  show ?thesis
    using assms(2)
    by (auto simp: aga_filter_def idx alloc_def aga_loop.simps)
qed

theorem aga_filter_no_iteration_witness:
  "aga_filter (\<lambda>_ _ _ _. Inr 1) (\<lambda>_. 0) (init 2 1 0 1 1 1 1 1) 2 [(0, 0), (1, 1)]
      [0] [[5::nat], [6]] [True] [[7], [8]] [False] \<lparr>heap = [[0, 1]], draws = 0, evals = 0\<rparr>
   = Inr ((1, 0), \<lparr>heap = [[0, 1], [1, 1]], draws = 0, evals = 0\<rparr>)"
proof -
  have ne: "[0] \<noteq> ([] :: addr list)" by simp
  have stop: "(0::int) \<le> 0 \<or> (1::real) \<le> 0" by simp
  from aga_filter_no_iteration [OF ne stop, of "\<lambda>_ _ _ _. Inr 1" "\<lambda>_. 0" 2 1 1 1 1 1 2
        "[(0, 0), (1, 1)]" "[[5::nat], [6]]" "[True]" "[[7], [8]]" "[False]"
        "\<lparr>heap = [[0, 1]], draws = 0, evals = 0\<rparr>"]
  show ?thesis by (simp add: numeral_2_eq_2)
qed

section \<open>Properties of the GeneticOperators\<close>

lemma flip_changes: "(v - 1) mod 2 \<noteq> (v :: int)"
  by presburger

text \<open>
  Whenever \<^verbatim>\<open>mutation\<close> returns, what it returns is the list it was given, and the content
  of that list is no longer what it was.
\<close>

lemma mutation_in_place:
  assumes "mutation rnd x w = Inr (a, w')" and "x < length (heap w)"
  shows "a = x \<and> heap w' ! x \<noteq> heap w ! x \<and> length (heap w') = length (heap w)"
proof -
  let ?xs = "heap w ! x"
  let ?hi = "int (length ?xs) - 1"
  from assms(1) have rng: "\<not> 0 > ?hi"
    by (auto simp: mutation_def randint_def split: if_splits)
  define p where "p = nat (0 + int (rnd (draws w) mod nat (?hi - 0 + 1)))"
  have p: "p < length ?xs"
    using rng unfolding p_def by (simp add: nat_less_iff)
  from assms(1) rng have res: "a = x"
    "heap w' = (heap w)[x := ?xs[p := (?xs ! p - 1) mod 2]]"
    by (auto simp: mutation_def randint_def p_def Let_def)
  have "?xs[p := (?xs ! p - 1) mod 2] ! p \<noteq> ?xs ! p"
    using p flip_changes by simp
  then have "?xs[p := (?xs ! p - 1) mod 2] \<noteq> ?xs"
    by metis
  with res assms(2) show ?thesis by simp
qed

text \<open>
  Claim C4: \<^verbatim>\<open>mutation(a)\<close> returns a copy of \<open>a\<close> with one bit flipped and leaves the
  mask it was given, hence every mask of the population handed to \<^verbatim>\<open>cross_and_mutate\<close>,
  unchanged. The code makes no copy. With the mask \<open>[0, 1]\<close> in cell \<open>0\<close> and the random
  position \<open>0\<close>, \<^verbatim>\<open>mutation\<close> returns address \<open>0\<close> itself and the cell now holds \<open>[1, 1]\<close>;
  \<^verbatim>\<open>cross_and_mutate\<close> with one mutation on the population \<open>[(cell 0, 1/2)]\<close> returns the
  list \<open>[cell 0, cell 0]\<close>, the parent having become the mutant.
\<close>

theorem mutation_overwrites_parent:
  "mutation (\<lambda>_. 0) 0 \<lparr>heap = [[0, 1]], draws = 0, evals = 0\<rparr>
     = Inr (0, \<lparr>heap = [[1, 1]], draws = 1, evals = 0\<rparr>)
   \<and> cross_and_mutate (\<lambda>_. 0) 0 1 [(0, 1 / 2)] \<lparr>heap = [[0, 1]], draws = 0, evals = 0\<rparr>
     = Inr (([0, 0], 0), \<lparr>heap = [[1, 1]], draws = 2, evals = 0\<rparr>)"
  by (simp add: cross_and_mutate_def py_int_def mutation_def randint_def py_index_def)

section \<open>Properties of the initial population\<close>

lemma getattr_int_init [simp]:
  "getattr_int (init ms ps mi ft k1 k2 k3 k4) ''_mim_size'' = Inr ms"
  "getattr_int (init ms ps mi ft k1 k2 k3 k4) ''_pop_size'' = Inr ps"
  "getattr_int (init ms ps mi ft k1 k2 k3 k4) ''mim_size'' = Inl AttributeError"
  by (simp_all add: getattr_int_def getattr_def init_def)

lemma bin_digits_one: "bin_digits (Suc 0) = [1]"
  by (simp add: bin_digits.simps [of "Suc 0"])

lemma bin_digits_four: "bin_digits 4 = [1, 0, 0]"
  by (simp add: bin_digits.simps [of 4] bin_digits.simps [of 2] bin_digits_one)

text \<open>Binary expansions: a leading 1, and the number of digits.\<close>

lemma bin_digits_has_one: "n \<ge> 1 \<Longrightarrow> 1 \<in> set (bin_digits n)"
proof (induction n rule: bin_digits.induct)
  case (1 n)
  show ?case
  proof (cases "n < 2")
    case True
    with "1.prems" have "n = 1" by simp
    then show ?thesis by (simp add: bin_digits_one)
  next
    case False
    then have "n div 2 \<ge> 1" by simp
    with "1.IH" False have "1 \<in> set (bin_digits (n div 2))" by simp
    with False show ?thesis by (simp add: bin_digits.simps [of n])
  qed
qed

lemma bin_digits_length_le: "n < 2 ^ m \<Longrightarrow> m \<ge> 1 \<Longrightarrow> length (bin_digits n) \<le> m"
proof (induction n arbitrary: m rule: bin_digits.induct)
  case (1 n)
  show ?case
  proof (cases "n < 2")
    case True
    with "1.prems" show ?thesis by (simp add: bin_digits.simps [of n])
  next
    case False
    obtain k where m: "m = Suc k" using "1.prems"(2) by (cases m) auto
    from False "1.prems"(1) have "k \<ge> 1" unfolding m by (cases k) auto
    moreover from "1.prems"(1) have "n div 2 < 2 ^ k" unfolding m by simp
    ultimately have "length (bin_digits (n div 2)) \<le> k"
      using "1.IH" False by simp
    with False show ?thesis by (simp add: bin_digits.simps [of n] m)
  qed
qed

lemma bin_digits_length_pow: "length (bin_digits (2 ^ m)) = m + 1"
proof (induction m)
  case 0
  then show ?case by (simp add: bin_digits_one)
next
  case (Suc m)
  have "\<not> (2::nat) ^ Suc m < 2" by simp
  then show ?case using Suc by (simp add: bin_digits.simps [of "2 ^ Suc m"] del: power_Suc) simp
qed

lemma drawn_mask_good:
  assumes "ms \<ge> 1" and "1 \<le> k" and "k \<le> 2 * 2 ^ nat (ms - 1)"
  shows "good_mask ms (zfill (bin_digits (nat k)) ms)"
proof -
  have pw: "2 * 2 ^ nat (ms - 1) = (2::int) ^ nat ms"
    using assms(1) by (metis Suc_nat_eq_nat_zadd1 add.commute diff_add_cancel diff_ge_0_iff_ge power_Suc)
  have one: "1 \<in> set (zfill (bin_digits (nat k)) ms)"
    using bin_digits_has_one [of "nat k"] assms(2) by (simp add: zfill_def)
  have len: "length (zfill (bin_digits (nat k)) ms) = max (length (bin_digits (nat k))) (nat ms)"
    by (simp add: zfill_def)
  show ?thesis
  proof (cases "k = 2 ^ nat ms")
    case True
    then have nk: "nat k = 2 ^ nat ms" by (simp add: nat_power_eq)
    have "length (bin_digits (nat k)) = nat ms + 1"
      by (simp only: nk bin_digits_length_pow)
    with one len show ?thesis by (simp add: good_mask_def)
  next
    case False
    with assms(3) pw have "k < 2 ^ nat ms" by simp
    then have "nat k < 2 ^ nat ms" using assms(2)
      by (metis nat_less_iff nat_power_eq of_nat_numeral zero_le_numeral of_nat_power nat_int order.trans zero_le_one)
    moreover have "nat ms \<ge> 1" using assms(1) by simp
    ultimately have "length (bin_digits (nat k)) \<le> nat ms" by (rule bin_digits_length_le)
    then show ?thesis using one len by (simp add: good_mask_def)
  qed
qed


lemma initial_population_loop_good:
  assumes "ms \<ge> 1"
  shows "\<exists>new. length new = n \<and> (\<forall>m\<in>set new. good_mask ms m) \<and>
           initial_population_loop rnd (init ms ps mi ft k1 k2 k3 k4) n population w
           = Inr (population @ [length (heap w)..<length (heap w) + n],
                  w\<lparr>heap := heap w @ new, draws := draws w + n\<rparr>)"
proof (induction n arbitrary: population w)
  case 0
  then show ?case by simp
next
  case (Suc n)
  let ?upper = "2 * 2 ^ nat (ms - 1) :: int"
  let ?k = "1 + int (rnd (draws w) mod nat (?upper - 1 + 1))"
  let ?mask = "zfill (bin_digits (nat ?k)) ms"
  let ?w2 = "w\<lparr>draws := draws w + 1, heap := heap w @ [?mask]\<rparr>"
  have "(2::int) ^ nat (ms - 1) \<ge> 1" by simp
  then have up: "?upper \<ge> 1" by linarith
  have "int (rnd (draws w) mod nat ?upper) < ?upper"
    using up by (metis less_le_trans mod_less_divisor nat_int nat_less_iff zero_less_nat_eq zless_nat_conj zero_less_one)
  then have k: "1 \<le> ?k" "?k \<le> ?upper" by simp_all
  from drawn_mask_good [OF assms k] have good: "good_mask ms ?mask" .
  from Suc.IH [of "population @ [length (heap w)]" ?w2] obtain new where
    new: "length new = n" "\<forall>m\<in>set new. good_mask ms m"
      "initial_population_loop rnd (init ms ps mi ft k1 k2 k3 k4) n
         (population @ [length (heap w)]) ?w2
       = Inr ((population @ [length (heap w)]) @ [length (heap ?w2)..<length (heap ?w2) + n],
              ?w2\<lparr>heap := heap ?w2 @ new, draws := draws ?w2 + n\<rparr>)"
    by blast
  have step: "initial_population_loop rnd (init ms ps mi ft k1 k2 k3 k4) (Suc n) population w
        = initial_population_loop rnd (init ms ps mi ft k1 k2 k3 k4) n
            (population @ [length (heap w)]) ?w2"
    using assms up by (simp add: py_lshift_def randint_def alloc_def)
  have idx: "population @ [length (heap w)..<length (heap w) + Suc n]
             = (population @ [length (heap w)]) @ [length (heap ?w2)..<length (heap ?w2) + n]"
    by (simp add: upt_rec [of "length (heap w)"])
  have st: "w\<lparr>heap := heap w @ (?mask # new), draws := draws w + Suc n\<rparr>
            = ?w2\<lparr>heap := heap ?w2 @ new, draws := draws ?w2 + n\<rparr>"
    by simp
  have "initial_population_loop rnd (init ms ps mi ft k1 k2 k3 k4) (Suc n) population w
        = Inr (population @ [length (heap w)..<length (heap w) + Suc n],
               w\<lparr>heap := heap w @ (?mask # new), draws := draws w + Suc n\<rparr>)"
    by (simp only: step new(3) idx st)
  moreover have "length (?mask # new) = Suc n" using new(1) by simp
  moreover have "\<forall>m\<in>set (?mask # new). good_mask ms m" using new(2) good by simp
  ultimately show ?case by blast
qed

text \<open>
  What does hold of the initial population for \<open>mim_size \<ge> 1\<close>: the call returns, with
  \<open>pop_size\<close> fresh masks, each with a 1-bit and of length \<open>mim_size\<close> or
  \<open>mim_size + 1\<close>.
\<close>

lemma initial_population_shape:
  assumes "ms \<ge> 1"
  shows "\<exists>new. length new = nat ps \<and> (\<forall>m\<in>set new. good_mask ms m) \<and>
           initial_population rnd (init ms ps mi ft k1 k2 k3 k4) w
           = Inr ([length (heap w)..<length (heap w) + nat ps],
                  w\<lparr>heap := heap w @ new, draws := draws w + nat ps\<rparr>)"
  using initial_population_loop_good [OF assms, of "nat ps" rnd ps mi ft k1 k2 k3 k4 "[]" w]
  by (simp add: initial_population_def)

text \<open>
  Claim C5: for \<open>pop_size \<ge> 1\<close> and \<open>mim_size \<ge> 1\<close>, \<^verbatim>\<open>_initial_population\<close> returns
  \<open>pop_size\<close> masks, each of length exactly \<open>mim_size\<close> and with at least one 1-bit. The
  length fails: \<^verbatim>\<open>random.randint(1, 2 << mim_size - 1)\<close> includes its upper bound
  \<open>2 ^ mim_size\<close>, whose binary expansion has \<open>mim_size + 1\<close> digits. With \<open>mim_size = 2\<close>
  and the draw \<open>4\<close> the single mask is \<open>[1, 0, 0]\<close>.
\<close>

theorem initial_population_mask_too_long:
  "initial_population (\<lambda>_. 3) (init 2 1 5 1 1 1 1 1) \<lparr>heap = [], draws = 0, evals = 0\<rparr>
     = Inr ([0], \<lparr>heap = [[1, 0, 0]], draws = 1, evals = 0\<rparr>)
   \<and> length [1, 0, 0 :: int] \<noteq> 2"
  by (simp add: initial_population_def py_lshift_def randint_def alloc_def zfill_def
        bin_digits_four)

section \<open>Properties of the RedundancyRanker\<close>

lemma and_then_raises: "isl (and_then m (\<lambda>v. Inl e))"
  by (cases m) simp_all

lemma and_then_isl: "isl m \<Longrightarrow> isl (and_then m f)"
  by (cases m) simp_all

text \<open>
  \<^verbatim>\<open>__init__\<close> stores \<^verbatim>\<open>_mim_size\<close>; line 165 reads \<^verbatim>\<open>mim_size\<close>. On an instance as the
  constructor leaves it the MIM stage therefore never returns, whatever the matrix.
\<close>

lemma mim_filter_fresh_raises: "isl (mim_filter (init ms ps mi ft k1 k2 k3 k4) genes)"
  by (simp add: mim_filter_def Let_def and_then_raises)

text \<open>
  On a rectangular matrix nothing before line 165 raises, so the error is that of the
  missing attribute.
\<close>

lemma traverse_succeeds:
  "(\<And>a. a \<in> set xs \<Longrightarrow> \<exists>b. f a = Inr b) \<Longrightarrow> \<exists>ys. traverse f xs = Inr ys"
proof (induction xs)
  case Nil
  then show ?case by simp
next
  case (Cons a xs)
  then obtain b ys where "f a = Inr b" "traverse f xs = Inr ys"
    by (metis list.set_intros(1) list.set_intros(2))
  then show ?case by simp
qed

lemma dict_incr_present:
  "map_of d k = Some c \<Longrightarrow> dict_incr d k = Inr (AList.update k (c + 1) d)"
  by (simp add: dict_incr_def dict_get_def)

lemma update_keys_present:
  "map_of d k = Some c \<Longrightarrow> map fst (AList.update k v d) = map fst d"
  by (induction d) (auto split: if_splits)

lemma joint_count_loop_total:
  assumes "length x = length y"
  shows "counters_ok x y yc xby \<Longrightarrow> \<forall>i\<in>set idxs. i < length y \<Longrightarrow>
     \<exists>yc' xby'. joint_count_loop x y idxs (yc, xby) = Inr (yc', xby')
        \<and> counters_ok x y yc' xby' \<and> map fst yc' = map fst yc
        \<and> (\<forall>k c. map_of yc k = Some c \<longrightarrow> (\<exists>c'\<ge>c. map_of yc' k = Some c'))
        \<and> (\<forall>i\<in>set idxs. \<exists>c'\<ge>1. map_of yc' (y ! i) = Some c')"
proof (induction idxs arbitrary: yc xby)
  case Nil
  then show ?case by simp
next
  case (Cons i rest)
  from Cons.prems(2) have i: "i < length y" "i < length x" using assms by simp_all
  let ?xi = "x ! i" and ?yi = "y ! i"
  from i have mem: "?yi \<in> set y" "?xi \<in> set x" by simp_all
  from Cons.prems(1) mem obtain c inner d where
    c: "map_of yc ?yi = Some c" and inner: "map_of xby ?yi = Some inner"
    and d: "map_of inner ?xi = Some d"
    unfolding counters_ok_def by blast
  let ?yc1 = "AList.update ?yi (c + 1) yc"
  let ?inner1 = "AList.update ?xi (d + 1) inner"
  let ?xby1 = "AList.update ?yi ?inner1 xby"
  have step: "joint_count_loop x y (i # rest) (yc, xby) = joint_count_loop x y rest (?yc1, ?xby1)"
    using i c inner d by (simp add: py_index_def dict_incr_present dict_get_def)
  have ok1: "counters_ok x y ?yc1 ?xby1"
    using Cons.prems(1) inner unfolding counters_ok_def
    by (auto simp: update_conv')
  from Cons.prems(2) have rest: "\<forall>i\<in>set rest. i < length y" by simp
  from Cons.IH [OF ok1 rest] obtain yc' xby' where
    r: "joint_count_loop x y rest (?yc1, ?xby1) = Inr (yc', xby')"
       "counters_ok x y yc' xby'" "map fst yc' = map fst ?yc1"
       "\<forall>k c. map_of ?yc1 k = Some c \<longrightarrow> (\<exists>c'\<ge>c. map_of yc' k = Some c')"
       "\<forall>i\<in>set rest. \<exists>c'\<ge>1. map_of yc' (y ! i) = Some c'"
    by blast
  have keys: "map fst yc' = map fst yc"
    using r(3) update_keys_present [OF c] by simp
  have mono: "\<exists>c'\<ge>c0. map_of yc' k = Some c'" if "map_of yc k = Some c0" for k c0
  proof (cases "k = ?yi")
    case True
    with that c have "c0 = c" by simp
    moreover from r(4) have "\<exists>c'\<ge>c + 1. map_of yc' ?yi = Some c'"
      by (simp add: update_conv')
    ultimately show ?thesis using True by auto
  next
    case False
    with that have "map_of ?yc1 k = Some c0" by (simp add: update_conv')
    with r(4) show ?thesis by blast
  qed
  have here: "\<exists>c'\<ge>1. map_of yc' ?yi = Some c'"
  proof -
    from r(4) have "\<exists>c'\<ge>c + 1. map_of yc' ?yi = Some c'"
      by (simp add: update_conv')
    then show ?thesis by auto
  qed
  show ?case
    unfolding step using r(1,2,5) keys mono here by auto
qed

lemma cond_entropy_loop_total:
  "\<forall>k\<in>set keys. (\<exists>inner. map_of xby k = Some inner) \<and> (\<exists>n\<ge>1. map_of yc k = Some n) \<Longrightarrow>
   keys \<noteq> [] \<longrightarrow> len_y \<noteq> 0 \<Longrightarrow>
   \<exists>r. cond_entropy_loop keys yc xby len_y entropy = Inr r"
proof (induction keys arbitrary: entropy)
  case Nil
  then show ?case by simp
next
  case (Cons k keys)
  from Cons.prems(1) obtain inner n where
    inner: "map_of xby k = Some inner" and n: "map_of yc k = Some n" "n \<ge> 1"
    by auto
  have "\<exists>ps. traverse (\<lambda>c. and_then (dict_get yc k) (\<lambda>n. py_truediv (real c) (real n)))
                (map snd inner) = Inr ps"
    by (rule traverse_succeeds) (use n in \<open>simp add: dict_get_def py_truediv_def\<close>)
  then obtain ps where ps: "traverse (\<lambda>c. and_then (dict_get yc k)
         (\<lambda>n. py_truediv (real c) (real n))) (map snd inner) = Inr ps" ..
  from Cons.prems(2) have len: "len_y \<noteq> 0" by simp
  have "\<exists>r. cond_entropy_loop keys yc xby len_y
               (entropy + real n / real len_y * neg_plogp_sum ps) = Inr r"
    using Cons.IH [of "entropy + real n / real len_y * neg_plogp_sum ps"] Cons.prems len by simp
  then show ?case
    using inner n ps len by (simp add: dict_get_def py_truediv_def)
qed

lemma conditional_entropy_total:
  assumes "length x = length y"
  shows "\<exists>r. conditional_entropy x y = Inr r"
proof -
  have ok0: "counters_ok x y (dict_const y 0) (dict_const y (dict_const x 0))"
    by (simp add: counters_ok_def map_of_dict_const)
  have idx: "\<forall>i\<in>set [0..<length x]. i < length y"
    using assms by simp
  from joint_count_loop_total [OF assms ok0 idx] obtain yc' xby' where
    r: "joint_count_loop x y [0..<length x] (dict_const y 0, dict_const y (dict_const x 0))
        = Inr (yc', xby')"
       "counters_ok x y yc' xby'" "map fst yc' = map fst (dict_const y (0::nat))"
       "\<forall>i\<in>set [0..<length x]. \<exists>c'\<ge>1. map_of yc' (y ! i) = Some c'"
    by blast
  have keys: "set (map fst yc') = set y"
  proof -
    have "set (map fst (dict_const y (0::nat))) = dom (map_of (dict_const y (0::nat)))"
      by (simp add: dom_map_of_conv_image_fst)
    also have "\<dots> = set y"
      by (auto simp: map_of_dict_const dom_def)
    finally show ?thesis using r(3) by simp
  qed
  have pos: "\<exists>n\<ge>1. map_of yc' k = Some n" if "k \<in> set y" for k
  proof -
    from that obtain i where "i < length y" "y ! i = k"
      by (auto simp: in_set_conv_nth)
    with r(4) assms show ?thesis by auto
  qed
  have "\<exists>r. cond_entropy_loop (map fst yc') yc' xby' (length y) 0 = Inr r"
  proof (rule cond_entropy_loop_total)
    show "\<forall>k\<in>set (map fst yc'). (\<exists>inner. map_of xby' k = Some inner)
            \<and> (\<exists>n\<ge>1. map_of yc' k = Some n)"
      using r(2) pos unfolding keys counters_ok_def by blast
    show "map fst yc' \<noteq> [] \<longrightarrow> length y \<noteq> 0"
      using keys by auto
  qed
  then show ?thesis
    by (simp add: conditional_entropy_def r(1))
qed

lemma mutual_information_total:
  "length x = length y \<Longrightarrow> \<exists>r. mutual_information x y = Inr r"
  using conditional_entropy_total [of x y]
  by (auto simp: mutual_information_def marginal_entropy_value)

lemma genes_mutual_information_total:
  assumes "\<forall>r\<in>set genes. length r = n"
  shows "\<exists>mi. genes_mutual_information genes = Inr mi"
proof -
  have cell: "\<exists>b. (if i \<noteq> j
            then and_then (py_index genes i) (\<lambda>gi.
                 and_then (py_index genes j) (\<lambda>gj. mutual_information gi gj))
            else Inr 0) = Inr b"
    if "i \<in> set [0..<length genes]" "j \<in> set [0..<length genes]" for i j
  proof -
    from that have "length (genes ! i) = length (genes ! j)"
      using assms by simp
    from mutual_information_total [OF this] that show ?thesis
      by (auto simp: py_index_def)
  qed
  have row: "\<exists>b. traverse (\<lambda>j. if i \<noteq> j
            then and_then (py_index genes i) (\<lambda>gi.
                 and_then (py_index genes j) (\<lambda>gj. mutual_information gi gj))
            else Inr 0) [0..<length genes] = Inr b"
    if "i \<in> set [0..<length genes]" for i
    by (rule traverse_succeeds) (use cell that in blast)
  have "\<exists>m. traverse (\<lambda>i. traverse (\<lambda>j. if i \<noteq> j
            then and_then (py_index genes i) (\<lambda>gi.
                 and_then (py_index genes j) (\<lambda>gj. mutual_information gi gj))
            else Inr 0) [0..<length genes]) [0..<length genes] = Inr m"
    by (rule traverse_succeeds) (use row in blast)
  then show ?thesis
    by (auto simp: genes_mutual_information_def Let_def)
qed

lemma mim_filter_rectangular_raises:
  assumes "\<forall>r\<in>set genes. length r = n"
  shows "mim_filter (init ms ps mi ft k1 k2 k3 k4) genes = Inl AttributeError"
  using genes_mutual_information_total [OF assms]
  by (auto simp: mim_filter_def Let_def)

text \<open>
  Claim C2: for every training matrix and every configured reduced size, \<^verbatim>\<open>_mim_filter\<close>
  returns the feature indices sorted ascending by redundancy score and cut to the reduced
  size, deterministically. On an instance built by \<^verbatim>\<open>__init__\<close> it returns nothing at
  all: for every matrix the call raises, and on the matrix with rows \<open>[0, 1]\<close> and
  \<open>[1, 1]\<close> the error is the \<^verbatim>\<open>AttributeError\<close> of the missing attribute \<^verbatim>\<open>mim_size\<close>.
\<close>

theorem mim_filter_raises:
  "isl (mim_filter (init ms ps mi ft k1 k2 k3 k4) genes)
   \<and> mim_filter (init 2 4 5 (99 / 100) (3 / 5) (3 / 10) (9 / 10) (1 / 1000))
        [[0, 1], [1, 1 :: nat]] = Inl AttributeError"
  by (simp add: mim_filter_def genes_mutual_information_def mutual_information_def
      marginal_entropy_value conditional_entropy_def dict_const_def dict_incr_def dict_get_def
      py_index_def py_truediv_def neg_plogp_sum_def upt_rec Let_def and_then_raises)

section \<open>Properties of the Orchestrator\<close>

text \<open>
  For the same reason \<^verbatim>\<open>mimaga_filter\<close> never returns on an instance as the constructor
  leaves it: it calls \<^verbatim>\<open>_mim_filter\<close> before anything else that could succeed.
\<close>

lemma mimaga_filter_fresh_raises:
  "isl (mimaga_filter split clf rnd (init ms ps mi ft k1 k2 k3 k4) genes classes w)"
proof (cases "split (transpose genes) classes")
  case (Inl e)
  then show ?thesis by (simp add: mimaga_filter_def)
next
  case (Inr r)
  obtain a b c d where "r = (a, b, c, d)" by (cases r) auto
  with Inr show ?thesis
    by (simp add: mimaga_filter_def and_then_isl mim_filter_fresh_raises)
qed





end
